theory Spec2Isabelle
  imports Complex_Main "HOL-Library.Multiset" "HOL-Library.Char_ord"
    "HOL-Library.List_Lexorder" "HOL-Library.Product_Lexorder" "HOL-Library.Sublist"
begin

section \<open>The deal table\<close>

text \<open>
  Modelled from the spec: the column schema of the file
  \<^verbatim>\<open>canonical_sales_data_final_corrected.csv\<close>, which is read by \<^verbatim>\<open>load_data\<close>
  but is not part of the sources. The fields carry the header names that
  \<^verbatim>\<open>Canonical.py\<close> indexes the frame with. Label columns are strings, the deal value
  is an exact real (rounding of binary floats is not modelled), and the three optional
  numeric columns are \<open>real option\<close>, with \<open>None\<close> for the NaN of an empty cell.
  A data frame is the list of its rows, in row order.
\<close>

record deal =
  Sales_Quarter :: string
  Region :: string
  Deal_Stage :: string
  Deal_Value_USD :: real
  Product_Category :: string
  Lead_Source :: string
  Salesperson_ID :: string
  Time_to_Close_Days :: "real option"
  Customer_Satisfaction_Score :: "real option"
  Engagement_Score :: "real option"

type_synonym frame = "deal list"

section \<open>The pandas operations the script uses\<close>

text \<open>\<^verbatim>\<open>df[c]\<close>: a column is the list of the field's values, one per row.\<close>

definition column :: "('r \<Rightarrow> 'a) \<Rightarrow> 'r list \<Rightarrow> 'a list" where
  "column c df = map c df"

text \<open>\<^verbatim>\<open>s.isin(values)\<close>: the boolean mask of membership, one entry per row.\<close>

definition isin :: "'a list \<Rightarrow> 'a list \<Rightarrow> bool list" where
  "isin s vals = map (\<lambda>x. x \<in> set vals) s"

text \<open>\<^verbatim>\<open>s == v\<close>, \<^verbatim>\<open>m1 & m2\<close> and \<^verbatim>\<open>~m\<close> on masks.\<close>

definition eq_mask :: "'a list \<Rightarrow> 'a \<Rightarrow> bool list" where
  "eq_mask s v = map (\<lambda>x. x = v) s"

definition and_mask :: "bool list \<Rightarrow> bool list \<Rightarrow> bool list" where
  "and_mask m1 m2 = map (\<lambda>(a, b). a \<and> b) (zip m1 m2)"

definition not_mask :: "bool list \<Rightarrow> bool list" where
  "not_mask m = map Not m"

text \<open>\<^verbatim>\<open>df[mask]\<close>: the rows whose mask entry is true, in row order.\<close>

definition select :: "'r list \<Rightarrow> bool list \<Rightarrow> 'r list" where
  "select df m = map fst (filter snd (zip df m))"

text \<open>\<^verbatim>\<open>s.sum()\<close> is 0 on an empty column; \<^verbatim>\<open>df.shape[0]\<close> is the row count.\<close>

definition series_sum :: "real list \<Rightarrow> real" where
  "series_sum s = sum_list s"

definition shape0 :: "'r list \<Rightarrow> nat" where
  "shape0 df = length df"

text \<open>
  \<^verbatim>\<open>s.mean()\<close> skips NaN entries and is NaN (here \<open>None\<close>) when nothing is left.
\<close>

fun dropna :: "real option list \<Rightarrow> real list" where
  "dropna [] = []"
| "dropna (None # s) = dropna s"
| "dropna (Some x # s) = x # dropna s"

definition series_mean :: "real option list \<Rightarrow> real option" where
  "series_mean s =
     (let present = dropna s
      in if present = [] then None
         else Some (sum_list present / real (length present)))"

text \<open>
  \<^verbatim>\<open>df.groupby(keys)[c].sum().reset_index()\<close>: one output row per distinct key, in
  ascending key order (\<^verbatim>\<open>sort=True\<close> is the default), carrying the sum of the column
  over the rows of that key. \<^verbatim>\<open>.mean()\<close> divides the group's sum by its size; a group
  is never empty.
\<close>

definition group_keys :: "('r \<Rightarrow> 'k::linorder) \<Rightarrow> 'r list \<Rightarrow> 'k list" where
  "group_keys key df = sort (remdups (map key df))"

definition group_rows :: "('r \<Rightarrow> 'k) \<Rightarrow> 'r list \<Rightarrow> 'k \<Rightarrow> 'r list" where
  "group_rows key df k = select df (eq_mask (column key df) k)"

definition groupby_sum :: "('r \<Rightarrow> 'k::linorder) \<Rightarrow> ('r \<Rightarrow> real) \<Rightarrow> 'r list \<Rightarrow> ('k \<times> real) list" where
  "groupby_sum key c df =
     map (\<lambda>k. (k, series_sum (column c (group_rows key df k)))) (group_keys key df)"

definition groupby_mean :: "('r \<Rightarrow> 'k::linorder) \<Rightarrow> ('r \<Rightarrow> real) \<Rightarrow> 'r list \<Rightarrow> ('k \<times> real) list" where
  "groupby_mean key c df =
     map (\<lambda>k. (k, series_sum (column c (group_rows key df k))
                     / real (shape0 (group_rows key df k))))
         (group_keys key df)"

section \<open>The script\<close>

subsection \<open>Filters (lines 32-35 and 75)\<close>

definition data_filtered :: "frame \<Rightarrow> string list \<Rightarrow> string list \<Rightarrow> frame" where
  "data_filtered data selected_quarters selected_regions =
     select data
       (and_mask (isin (column Sales_Quarter data) selected_quarters)
                 (isin (column Region data) selected_regions))"

definition region_filtered_data :: "frame \<Rightarrow> string list \<Rightarrow> frame" where
  "region_filtered_data df selected_deal_stages =
     select df (isin (column Deal_Stage df) selected_deal_stages)"

subsection \<open>Key metrics (lines 44-52 and 64-66)\<close>

definition total_pipeline_value :: "frame \<Rightarrow> real" where
  "total_pipeline_value df =
     series_sum (column Deal_Value_USD
       (select df (not_mask (isin (column Deal_Stage df) [''Closed-Won'', ''Closed-Lost'']))))"

definition total_closed_won :: "frame \<Rightarrow> real" where
  "total_closed_won df =
     series_sum (column Deal_Value_USD (select df (eq_mask (column Deal_Stage df) ''Closed-Won'')))"

definition total_closed_lost :: "frame \<Rightarrow> real" where
  "total_closed_lost df =
     series_sum (column Deal_Value_USD (select df (eq_mask (column Deal_Stage df) ''Closed-Lost'')))"

definition closed_won :: "frame \<Rightarrow> nat" where
  "closed_won df = shape0 (select df (eq_mask (column Deal_Stage df) ''Closed-Won''))"

definition total_deals :: "frame \<Rightarrow> nat" where
  "total_deals df = shape0 df"

definition win_rate :: "frame \<Rightarrow> real" where
  "win_rate df =
     (if total_deals df > 0 then (real (closed_won df) / real (total_deals df)) * 100 else 0)"

definition avg_time_to_close :: "frame \<Rightarrow> real option" where
  "avg_time_to_close df = series_mean (column Time_to_Close_Days df)"

definition avg_csat :: "frame \<Rightarrow> real option" where
  "avg_csat df = series_mean (column Customer_Satisfaction_Score df)"

definition avg_engagement :: "frame \<Rightarrow> real option" where
  "avg_engagement df = series_mean (column Engagement_Score df)"

text \<open>
  What a metric widget is given for a mean: the number to be formatted, or the
  text \<^verbatim>\<open>N/A\<close> when \<^verbatim>\<open>pd.isna\<close> holds of it.
\<close>

datatype shown = Number real | NA

definition metric_value :: "real option \<Rightarrow> shown" where
  "metric_value m = (case m of None \<Rightarrow> NA | Some x \<Rightarrow> Number x)"

subsection \<open>Grouped roll-ups (lines 78, 103-109, 116-117, 128 and 140)\<close>

definition region_category_revenue :: "frame \<Rightarrow> ((string \<times> string) \<times> real) list" where
  "region_category_revenue rfd =
     groupby_sum (\<lambda>r. (Region r, Product_Category r)) Deal_Value_USD rfd"

text \<open>
  A row of the leaderboard: the two group keys that \<^verbatim>\<open>reset_index\<close> turns into columns
  and the two named aggregates.
\<close>

record leader =
  lb_Salesperson_ID :: string
  lb_Region :: string
  Total_Closed_Won :: real
  Average_Deal_Value :: real

text \<open>
  The leaderboard up to \<^verbatim>\<open>reset_index()\<close>: the Closed-Won rows, grouped by salesperson
  and region, with the sum and the mean of the deal value of each group.
\<close>

definition leaderboard_groups :: "frame \<Rightarrow> leader list" where
  "leaderboard_groups df =
     (let won = select df (eq_mask (column Deal_Stage df) ''Closed-Won'');
          key = (\<lambda>r. (Salesperson_ID r, Region r))
      in map (\<lambda>k. \<lparr>lb_Salesperson_ID = fst k, lb_Region = snd k,
                    Total_Closed_Won = series_sum (column Deal_Value_USD (group_rows key won k)),
                    Average_Deal_Value = series_sum (column Deal_Value_USD (group_rows key won k))
                                          / real (shape0 (group_rows key won k))\<rparr>)
             (group_keys key won))"

text \<open>\<^verbatim>\<open>df.head(n)\<close>: the first \<open>n\<close> rows, or all of them when there are fewer.\<close>

definition head :: "nat \<Rightarrow> 'a list \<Rightarrow> 'a list" where
  "head n df = take n df"

text \<open>
  \<^verbatim>\<open>sort_values(by='Total_Closed_Won', ascending=False)\<close> is called without a
  \<^verbatim>\<open>kind\<close>, so pandas sorts with its default, quicksort, which is library code and
  not part of the sources. The sorting routine is a parameter of the leaderboard. What any
  routine for \<^verbatim>\<open>sort_values\<close> does is \<open>sorts_descending\<close>: it returns the rows it
  was given, each as often as it occurs, in descending order of the column. Two routines
  follow: one that keeps rows with equal values in the order they had (what
  \<^verbatim>\<open>kind='stable'\<close> would do), and the default one.
\<close>

definition leaderboard ::
  "((leader \<Rightarrow> real) \<Rightarrow> leader list \<Rightarrow> leader list) \<Rightarrow> frame \<Rightarrow> leader list" where
  "leaderboard sort_values df = head 10 (sort_values Total_Closed_Won (leaderboard_groups df))"


definition stable_sort_values :: "('r \<Rightarrow> real) \<Rightarrow> 'r list \<Rightarrow> 'r list" where
  "stable_sort_values by df = sort_key (\<lambda>r. - by r) df"

definition category_revenue_closed_won :: "frame \<Rightarrow> frame" where
  "category_revenue_closed_won df = select df (eq_mask (column Deal_Stage df) ''Closed-Won'')"

definition category_revenue :: "frame \<Rightarrow> (string \<times> real) list" where
  "category_revenue df =
     groupby_sum Product_Category Deal_Value_USD (category_revenue_closed_won df)"

definition category_avg_deal :: "frame \<Rightarrow> (string \<times> real) list" where
  "category_avg_deal df = groupby_mean Product_Category Deal_Value_USD df"

definition lead_source_data :: "frame \<Rightarrow> ((string \<times> string) \<times> real) list" where
  "lead_source_data df = groupby_sum (\<lambda>r. (Lead_Source r, Deal_Stage r)) Deal_Value_USD df"

subsection \<open>The default sort: pandas' nargsort over numpy's quicksort\<close>

text \<open>
  Library code, transcribed from numpy's \<^verbatim>\<open>npysort/quicksort.cpp\<close> (\<^verbatim>\<open>aquicksort_\<close>, with
  \<^verbatim>\<open>aheapsort_\<close> from \<^verbatim>\<open>heapsort.cpp\<close>) and from \<^verbatim>\<open>nargsort\<close> in pandas'
  \<^verbatim>\<open>core/sorting.py\<close>. It is the portable routine, the one that runs where numpy does not
  dispatch to a vectorised sort. The array \<open>a\<close> is \<^verbatim>\<open>tosort\<close>, the indices being
  permuted, and \<open>v\<close> holds the values they point to; positions \<open>pl\<close>, \<open>pr\<close>, \<open>pm\<close>,
  \<open>i\<close>, \<open>j\<close> are the pointers \<^verbatim>\<open>pl\<close>, \<^verbatim>\<open>pr\<close>, \<^verbatim>\<open>pm\<close>, \<^verbatim>\<open>pi\<close>, \<^verbatim>\<open>pj\<close> as offsets
  into \<^verbatim>\<open>tosort\<close>. The values compared are the group totals, none of which is NaN, so
  \<^verbatim>\<open>Tag::less\<close> is \<open><\<close>.
\<close>

text \<open>\<^verbatim>\<open>INTP_SWAP(*x, *y)\<close>, and the same under \<^verbatim>\<open>if (less(v[*x], v[*y]))\<close>.\<close>

definition swap :: "nat list \<Rightarrow> nat \<Rightarrow> nat \<Rightarrow> nat list" where
  "swap a x y = a[x := a ! y, y := a ! x]"

definition cswap :: "real list \<Rightarrow> nat list \<Rightarrow> nat \<Rightarrow> nat \<Rightarrow> nat list" where
  "cswap v a x y = (if v ! (a ! x) < v ! (a ! y) then swap a x y else a)"

text \<open>The three conditional swaps that put the median of three at \<open>pm\<close>.\<close>

definition median3 :: "real list \<Rightarrow> nat list \<Rightarrow> nat \<Rightarrow> nat \<Rightarrow> nat \<Rightarrow> nat list" where
  "median3 v a pl pm pr = cswap v (cswap v (cswap v a pm pl) pr pm) pm pl"

text \<open>
  \<^verbatim>\<open>do { ++pi; } while (less(v[*pi], vp))\<close> and \<^verbatim>\<open>do { --pj; } while (less(vp, v[*pj]))\<close>,
  entered with the pointer already moved once. The C loops have no bound check: the pivot
  stored at \<open>pr - 1\<close> and the median-of-three element at \<open>pl\<close> stop them. Here a scan also
  stops at the end of the array.
\<close>

function scan_up :: "real list \<Rightarrow> nat list \<Rightarrow> real \<Rightarrow> nat \<Rightarrow> nat" where
  "scan_up v a vp i =
     (if i < length a \<and> v ! (a ! i) < vp then scan_up v a vp (i + 1) else i)"
  by pat_completeness auto
termination
  by (relation "measure (\<lambda>(v, a, vp, i). length a - i)") auto

fun scan_down :: "real list \<Rightarrow> nat list \<Rightarrow> real \<Rightarrow> nat \<Rightarrow> nat" where
  "scan_down v a vp j =
     (if 0 < j \<and> vp < v ! (a ! j) then scan_down v a vp (j - 1) else j)"

declare scan_up.simps [simp del] scan_down.simps [simp del]

text \<open>
  The partition loop \<^verbatim>\<open>for (;;) { scan up; scan down; if (pi >= pj) break; swap }\<close>; it
  returns the array and the final \<open>pi\<close>.
\<close>

function partition_loop ::
  "real list \<Rightarrow> nat list \<Rightarrow> real \<Rightarrow> nat \<Rightarrow> nat \<Rightarrow> nat list \<times> nat" where
  "partition_loop v a vp i j =
     (case (scan_up v a vp (i + 1), scan_down v a vp (j - 1)) of
        (i', j') \<Rightarrow>
          if i' \<ge> j' then (a, i') else partition_loop v (swap a i' j') vp i' j')"
  by pat_completeness auto
termination
proof -
  have up: "i \<le> scan_up v a vp i" for v a vp i
    by (induction v a vp i rule: scan_up.induct) (subst scan_up.simps, auto)
  have down: "scan_down v a vp j \<le> j" for v a vp j
    by (induction v a vp j rule: scan_down.induct) (subst scan_down.simps, auto)
  have gap: "scan_down v a vp (j - Suc 0) - scan_up v a vp (Suc i) < j - i"
    if "\<not> scan_down v a vp (j - Suc 0) \<le> scan_up v a vp (Suc i)" for v a vp i j
    using that up [of "Suc i" v a vp] down [of v a vp "j - Suc 0"] by linarith
  show ?thesis
    by (relation "measure (\<lambda>(v, a, vp, i, j). j - i)") (auto simp: gap)
qed

declare partition_loop.simps [simp del]

text \<open>
  One partition of \<open>[pl, pr]\<close>: median of three, the pivot value \<open>vp\<close> taken from \<open>pm\<close>
  and moved to \<open>pr - 1\<close>, the loop started at \<open>pi = pl\<close>, \<open>pj = pr - 1\<close>, and the pivot
  swapped into its place \<open>pi\<close>.
\<close>

fun place_pivot :: "nat \<Rightarrow> nat list \<times> nat \<Rightarrow> nat list \<times> nat" where
  "place_pivot k (a, i) = (swap a i k, i)"

definition partition_around ::
  "real list \<Rightarrow> nat list \<Rightarrow> nat \<Rightarrow> nat \<Rightarrow> nat \<Rightarrow> nat list \<times> nat" where
  "partition_around v a pl pm pr =
     place_pivot (pr - 1) (partition_loop v (swap a pm (pr - 1)) (v ! (a ! pm)) pl (pr - 1))"

definition partition :: "real list \<Rightarrow> nat list \<Rightarrow> nat \<Rightarrow> nat \<Rightarrow> nat list \<times> nat" where
  "partition v a pl pr =
     partition_around v (median3 v a pl (pl + (pr - pl) div 2) pr) pl (pl + (pr - pl) div 2) pr"

text \<open>
  The insertion sort that finishes a range of at most 17 elements:
  \<^verbatim>\<open>for (pi = pl + 1; pi <= pr; ++pi)\<close> with the inner
  \<^verbatim>\<open>while (pj > pl && less(vp, v[*pk])) { *pj-- = *pk--; }\<close>.
\<close>

fun insert_at :: "real list \<Rightarrow> nat list \<Rightarrow> nat \<Rightarrow> nat \<Rightarrow> nat \<Rightarrow> nat list" where
  "insert_at v a vi pl j =
     (if pl < j \<and> v ! vi < v ! (a ! (j - 1))
      then insert_at v (a[j := a ! (j - 1)]) vi pl (j - 1)
      else a[j := vi])"

function insertion_sort :: "real list \<Rightarrow> nat list \<Rightarrow> nat \<Rightarrow> nat \<Rightarrow> nat \<Rightarrow> nat list" where
  "insertion_sort v a pl pr i =
     (if i \<le> pr then insertion_sort v (insert_at v a (a ! i) pl i) pl pr (i + 1) else a)"
  by pat_completeness auto
termination
  by (relation "measure (\<lambda>(v, a, pl, pr, i). Suc pr - i)") auto

declare insert_at.simps [simp del] insertion_sort.simps [simp del]

text \<open>
  The heapsort that takes over a range when the depth limit is used up. Its heap is
  indexed from 1 (\<^verbatim>\<open>a = tosort - 1\<close>), so heap position \<open>k\<close> of the range starting at
  \<open>pl\<close> is array position \<open>pl + k - 1\<close>. \<open>sift\<close> is the inner loop
  \<^verbatim>\<open>for (i = l, j = l << 1; j <= n;)\<close> followed by \<^verbatim>\<open>a[i] = tmp\<close>.
\<close>

definition larger_child :: "real list \<Rightarrow> nat list \<Rightarrow> nat \<Rightarrow> nat \<Rightarrow> nat \<Rightarrow> nat" where
  "larger_child v a pl j n =
     (if j < n \<and> v ! (a ! (pl + j - 1)) < v ! (a ! (pl + j)) then j + 1 else j)"

function sift ::
  "real list \<Rightarrow> nat list \<Rightarrow> nat \<Rightarrow> nat \<Rightarrow> nat \<Rightarrow> nat \<Rightarrow> nat \<Rightarrow> nat list" where
  "sift v a pl tmp i j n =
     (if 0 < j \<and> j \<le> n \<and> v ! tmp < v ! (a ! (pl + larger_child v a pl j n - 1))
      then sift v (a[pl + i - 1 := a ! (pl + larger_child v a pl j n - 1)]) pl tmp
             (larger_child v a pl j n) (2 * larger_child v a pl j n) n
      else a[pl + i - 1 := tmp])"
  by pat_completeness auto
termination
  by (relation "measure (\<lambda>(v, a, pl, tmp, i, j, n). Suc n - j)")
    (auto simp: larger_child_def split: if_splits)

fun heapify :: "real list \<Rightarrow> nat list \<Rightarrow> nat \<Rightarrow> nat \<Rightarrow> nat \<Rightarrow> nat list" where
  "heapify v a pl n l =
     (if 0 < l then heapify v (sift v a pl (a ! (pl + l - 1)) l (2 * l) n) pl n (l - 1) else a)"

fun pop_max :: "real list \<Rightarrow> nat list \<Rightarrow> nat \<Rightarrow> nat \<Rightarrow> nat list" where
  "pop_max v a pl n =
     (if 1 < n
      then pop_max v (sift v (a[pl + n - 1 := a ! pl]) pl (a ! (pl + n - 1)) 1 2 (n - 1)) pl (n - 1)
      else a)"

declare sift.simps [simp del] heapify.simps [simp del] pop_max.simps [simp del]

definition aheapsort :: "real list \<Rightarrow> nat list \<Rightarrow> nat \<Rightarrow> nat \<Rightarrow> nat list" where
  "aheapsort v a pl n = pop_max v (heapify v a pl n (n div 2)) pl n"

text \<open>
  The introsort. The C code keeps a stack of ranges; since the ranges are disjoint, the
  order in which they are sorted does not matter, and the stack is a recursion here. A
  range longer than 17 is partitioned; the smaller part is continued with at once, the
  larger one is pushed and, when popped (\<open>popped\<close>), handed to heapsort if the depth limit
  \<open>cdepth\<close> has fallen below 0. \<open>fuel\<close> bounds the nesting of partitions; the number of
  elements is enough, as each part is shorter than the range it comes from, and \<open>None\<close>
  is running out of it.
\<close>

fun aquicksort ::
  "nat \<Rightarrow> real list \<Rightarrow> nat list \<Rightarrow> nat \<Rightarrow> nat \<Rightarrow> int \<Rightarrow> bool \<Rightarrow> nat list option" where
  "aquicksort fuel v a pl pr cdepth popped =
     (if fuel = 0 then None
      else if popped \<and> cdepth < 0 then Some (aheapsort v a pl (pr - pl + 1))
      else if pl + 16 < pr then
        (case partition v a pl pr of
           (a', i) \<Rightarrow>
             if i - pl < pr - i
             then (case aquicksort (fuel - 1) v a' pl (i - 1) (cdepth - 1) False of
                     None \<Rightarrow> None
                   | Some a'' \<Rightarrow> aquicksort (fuel - 1) v a'' (i + 1) pr (cdepth - 1) True)
             else (case aquicksort (fuel - 1) v a' (i + 1) pr (cdepth - 1) False of
                     None \<Rightarrow> None
                   | Some a'' \<Rightarrow> aquicksort (fuel - 1) v a'' pl (i - 1) (cdepth - 1) True))
      else Some (insertion_sort v a pl pr (pl + 1)))"

declare aquicksort.simps [simp del]

fun npy_get_msb :: "nat \<Rightarrow> nat" where
  "npy_get_msb n = (if n < 2 then 0 else 1 + npy_get_msb (n div 2))"

declare npy_get_msb.simps [simp del]

text \<open>\<^verbatim>\<open>v.argsort(kind='quicksort')\<close>: the indices \<open>0, ..., num - 1\<close>, sorted by value.\<close>

definition argsort :: "real list \<Rightarrow> nat list option" where
  "argsort v =
     (if length v = 0 then Some []
      else aquicksort (length v) v [0..<length v] 0 (length v - 1)
             (2 * int (npy_get_msb (length v))) True)"

text \<open>
  \<^verbatim>\<open>nargsort(items, kind='quicksort', ascending=False)\<close> when no value is missing: the
  values and their positions are reversed, sorted ascending, and the resulting positions
  reversed again. \<^verbatim>\<open>sort_values\<close> then takes the rows at these positions.
\<close>

definition nargsort :: "real list \<Rightarrow> nat list option" where
  "nargsort items =
     (case argsort (rev items) of
        None \<Rightarrow> None
      | Some p \<Rightarrow> Some (rev (map (\<lambda>k. rev [0..<length items] ! k) p)))"



subsection \<open>One run of the script\<close>

text \<open>
  Everything the script hands to a widget or a chart in one run, as a function of the
  table and of the three selections.
\<close>

record page =
  page_data_filtered :: frame
  page_total_pipeline_value :: real
  page_total_closed_won :: real
  page_total_closed_lost :: real
  page_win_rate :: real
  page_avg_time_to_close :: shown
  page_avg_csat :: shown
  page_avg_engagement :: shown
  page_region_category_revenue :: "((string \<times> string) \<times> real) list"
  page_leaderboard :: "leader list"
  page_category_revenue :: "(string \<times> real) list"
  page_category_avg_deal :: "(string \<times> real) list"
  page_lead_source_data :: "((string \<times> string) \<times> real) list"

definition dashboard ::
  "((leader \<Rightarrow> real) \<Rightarrow> leader list \<Rightarrow> leader list) \<Rightarrow> frame
     \<Rightarrow> string list \<Rightarrow> string list \<Rightarrow> string list \<Rightarrow> page" where
  "dashboard sort_values data selected_quarters selected_regions selected_deal_stages =
     (let df = data_filtered data selected_quarters selected_regions;
          rfd = region_filtered_data df selected_deal_stages
      in \<lparr>page_data_filtered = df,
          page_total_pipeline_value = total_pipeline_value df,
          page_total_closed_won = total_closed_won df,
          page_total_closed_lost = total_closed_lost df,
          page_win_rate = win_rate df,
          page_avg_time_to_close = metric_value (avg_time_to_close df),
          page_avg_csat = metric_value (avg_csat df),
          page_avg_engagement = metric_value (avg_engagement df),
          page_region_category_revenue = region_category_revenue rfd,
          page_leaderboard = leaderboard sort_values df,
          page_category_revenue = category_revenue df,
          page_category_avg_deal = category_avg_deal df,
          page_lead_source_data = lead_source_data df\<rparr>)"

subsection \<open>The script as statements on a store of data frames\<close>

text \<open>
  The data frames of a run are objects: the store \<open>heap\<close> maps addresses to frames, and
  the variables of the script are bound to addresses. \<^verbatim>\<open>load_data\<close> is wrapped in
  \<^verbatim>\<open>st.cache_data\<close>: the first call reads the file, whose content is \<open>csv\<close>, and stores
  it; every call returns a copy of what is stored, a new object. The cache is the only
  state that outlives a run.
\<close>

record selections =
  sel_quarters :: "string list"
  sel_regions :: "string list"
  sel_deal_stages :: "string list"

definition load_data :: "frame \<Rightarrow> frame option \<Rightarrow> frame \<times> frame option" where
  "load_data csv cache = (case cache of None \<Rightarrow> (csv, Some csv) | Some d \<Rightarrow> (d, Some d))"

record world =
  heap :: "nat \<Rightarrow> frame option"
  vars :: "string \<Rightarrow> nat option"
  fresh :: nat
  shown_page :: page
  cached :: "frame option"

text \<open>
  The statements a script over data frames can make: a call of \<^verbatim>\<open>load_data\<close>; boolean
  indexing \<^verbatim>\<open>v = src[mask]\<close>, which builds a new frame; a computation that reads a frame
  and hands its result to a widget or chart; and a change of a frame in place (an
  assignment into it, or a method called with \<^verbatim>\<open>inplace=True\<close>). A statement that uses a
  variable that is not bound fails (\<open>None\<close>), as a NameError would.
\<close>

datatype stmt =
    Load string
  | Getitem string string "frame \<Rightarrow> bool list"
  | Show string "frame \<Rightarrow> page \<Rightarrow> page"
  | Inplace string "frame \<Rightarrow> frame"

definition new_object :: "string \<Rightarrow> frame \<Rightarrow> world \<Rightarrow> world" where
  "new_object v f w =
     w\<lparr>heap := (heap w)(fresh w \<mapsto> f), vars := (vars w)(v \<mapsto> fresh w), fresh := Suc (fresh w)\<rparr>"

definition object_of :: "world \<Rightarrow> string \<Rightarrow> frame option" where
  "object_of w v = (case vars w v of None \<Rightarrow> None | Some a \<Rightarrow> heap w a)"

fun exec :: "frame \<Rightarrow> stmt \<Rightarrow> world \<Rightarrow> world option" where
  "exec csv (Load v) w =
     (case load_data csv (cached w) of (d, c) \<Rightarrow> Some (new_object v d (w\<lparr>cached := c\<rparr>)))"
| "exec csv (Getitem v src m) w =
     (case object_of w src of None \<Rightarrow> None
      | Some f \<Rightarrow> Some (new_object v (select f (m f)) w))"
| "exec csv (Show src g) w =
     (case object_of w src of None \<Rightarrow> None
      | Some f \<Rightarrow> Some (w\<lparr>shown_page := g f (shown_page w)\<rparr>))"
| "exec csv (Inplace src g) w =
     (case vars w src of None \<Rightarrow> None
      | Some a \<Rightarrow> (case heap w a of None \<Rightarrow> None
                  | Some f \<Rightarrow> Some (w\<lparr>heap := (heap w)(a \<mapsto> g f)\<rparr>)))"

text \<open>The state after each statement, up to the first that fails, and the final state.\<close>

fun trace :: "frame \<Rightarrow> stmt list \<Rightarrow> world \<Rightarrow> world option list" where
  "trace csv [] w = []"
| "trace csv (s # ss) w =
     (case exec csv s w of None \<Rightarrow> [None] | Some w' \<Rightarrow> Some w' # trace csv ss w')"

fun run :: "frame \<Rightarrow> stmt list \<Rightarrow> world \<Rightarrow> world option" where
  "run csv [] w = Some w"
| "run csv (s # ss) w = (case exec csv s w of None \<Rightarrow> None | Some w' \<Rightarrow> run csv ss w')"

definition blank_page :: page where
  "blank_page = \<lparr>page_data_filtered = [], page_total_pipeline_value = 0,
     page_total_closed_won = 0, page_total_closed_lost = 0, page_win_rate = 0,
     page_avg_time_to_close = NA, page_avg_csat = NA, page_avg_engagement = NA,
     page_region_category_revenue = [], page_leaderboard = [], page_category_revenue = [],
     page_category_avg_deal = [], page_lead_source_data = []\<rparr>"

text \<open>A run starts with no objects, no variables and an empty page; it keeps the cache.\<close>

definition start :: "frame option \<Rightarrow> world" where
  "start c = \<lparr>heap = (\<lambda>a. None), vars = (\<lambda>v. None), fresh = 0, shown_page = blank_page,
     cached = c\<rparr>"

text \<open>
  The statements of \<^verbatim>\<open>Canonical.py\<close> that touch a data frame, in order: line 16, lines
  32-35, line 39, lines 44-52 with 58-66, line 75, line 78, lines 103-109, line 116,
  line 117, line 128 and line 140. None of them assigns into a frame or passes
  \<^verbatim>\<open>inplace=True\<close>, so none is an \<open>Inplace\<close>.
\<close>

definition script ::
  "((leader \<Rightarrow> real) \<Rightarrow> leader list \<Rightarrow> leader list) \<Rightarrow> selections \<Rightarrow> stmt list" where
  "script sort_values sel =
     [Load ''data'',
      Getitem ''data_filtered'' ''data''
        (\<lambda>data. and_mask (isin (column Sales_Quarter data) (sel_quarters sel))
                         (isin (column Region data) (sel_regions sel))),
      Show ''data_filtered'' (\<lambda>df p. p\<lparr>page_data_filtered := df\<rparr>),
      Show ''data_filtered'' (\<lambda>df p. p\<lparr>page_total_pipeline_value := total_pipeline_value df\<rparr>),
      Show ''data_filtered'' (\<lambda>df p. p\<lparr>page_total_closed_won := total_closed_won df\<rparr>),
      Show ''data_filtered'' (\<lambda>df p. p\<lparr>page_total_closed_lost := total_closed_lost df\<rparr>),
      Show ''data_filtered'' (\<lambda>df p. p\<lparr>page_win_rate := win_rate df\<rparr>),
      Show ''data_filtered''
        (\<lambda>df p. p\<lparr>page_avg_time_to_close := metric_value (avg_time_to_close df)\<rparr>),
      Show ''data_filtered'' (\<lambda>df p. p\<lparr>page_avg_csat := metric_value (avg_csat df)\<rparr>),
      Show ''data_filtered'' (\<lambda>df p. p\<lparr>page_avg_engagement := metric_value (avg_engagement df)\<rparr>),
      Getitem ''region_filtered_data'' ''data_filtered''
        (\<lambda>df. isin (column Deal_Stage df) (sel_deal_stages sel)),
      Show ''region_filtered_data''
        (\<lambda>rfd p. p\<lparr>page_region_category_revenue := region_category_revenue rfd\<rparr>),
      Show ''data_filtered'' (\<lambda>df p. p\<lparr>page_leaderboard := leaderboard sort_values df\<rparr>),
      Getitem ''category_revenue_closed_won'' ''data_filtered''
        (\<lambda>df. eq_mask (column Deal_Stage df) ''Closed-Won''),
      Show ''category_revenue_closed_won''
        (\<lambda>won p. p\<lparr>page_category_revenue := groupby_sum Product_Category Deal_Value_USD won\<rparr>),
      Show ''data_filtered'' (\<lambda>df p. p\<lparr>page_category_avg_deal := category_avg_deal df\<rparr>),
      Show ''data_filtered'' (\<lambda>df p. p\<lparr>page_lead_source_data := lead_source_data df\<rparr>)]"

text \<open>
  A session: the script is run again, from a fresh start, on every change of a
  selection; only the cache is carried over. The trace of a session is the sequence of
  all states it goes through.
\<close>

fun session_trace ::
  "frame \<Rightarrow> ((leader \<Rightarrow> real) \<Rightarrow> leader list \<Rightarrow> leader list) \<Rightarrow> frame option
     \<Rightarrow> selections list \<Rightarrow> world option list" where
  "session_trace csv sort_values c [] = []"
| "session_trace csv sort_values c (sel # sels) =
     trace csv (script sort_values sel) (start c)
     @ session_trace csv sort_values
         (case run csv (script sort_values sel) (start c) of None \<Rightarrow> c | Some w \<Rightarrow> cached w)
         sels"

text \<open>
  The statements that leave the object bound to \<^verbatim>\<open>data\<close> alone: those that do not
  rebind the variable and do not change a frame in place. In a well-formed state every
  variable is bound to an address already handed out, so that a new object is no alias of
  an old one.
\<close>

fun keeps_data :: "stmt \<Rightarrow> bool" where
  "keeps_data (Load v) = (v \<noteq> ''data'')"
| "keeps_data (Getitem v src m) = (v \<noteq> ''data'')"
| "keeps_data (Show src g) = True"
| "keeps_data (Inplace src g) = False"

definition wf_world :: "world \<Rightarrow> bool" where
  "wf_world w \<longleftrightarrow> (\<forall>v a. vars w v = Some a \<longrightarrow> a < fresh w)"

section \<open>The properties in the words of the specification\<close>

text \<open>
  The mean of a column: the mean over the rows where the value is present, and the
  marker when there is no such row.
\<close>

definition mean_over_present :: "(deal \<Rightarrow> real option) \<Rightarrow> frame \<Rightarrow> shown" where
  "mean_over_present c v =
     (let present = filter (\<lambda>r. c r \<noteq> None) v
      in if present = [] then NA
         else Number ((\<Sum>r\<leftarrow>present. the (c r)) / real (length present)))"

text \<open>
  The rows of a view that make up a leaderboard group, and the order of ties: the
  grouping produces the groups in ascending order of their key, so of two leaderboard
  rows with equal totals the one produced first is the one with the smaller key.
\<close>

abbreviation won_rows :: "frame \<Rightarrow> frame" where
  "won_rows v \<equiv> filter (\<lambda>r. Deal_Stage r = ''Closed-Won'') v"


definition leader_key :: "leader \<Rightarrow> string \<times> string" where
  "leader_key g = (lb_Salesperson_ID g, lb_Region g)"

definition ties_in_group_order :: "leader list \<Rightarrow> bool" where
  "ties_in_group_order lb =
     sorted_wrt (\<lambda>a b. Total_Closed_Won a = Total_Closed_Won b \<longrightarrow> leader_key a < leader_key b) lb"

section \<open>Small tables for concrete checks\<close>

text \<open>
  Three deals in the shape of the example view: a won deal and an open deal in EU, a lost
  deal in US. A fourth deal, won by another salesperson in EU, has the value of the first.
\<close>

definition deal_a :: deal where
  "deal_a = \<lparr>Sales_Quarter = ''Q1'', Region = ''EU'', Deal_Stage = ''Closed-Won'',
     Deal_Value_USD = 100, Product_Category = ''Kubernetes'', Lead_Source = ''Web'',
     Salesperson_ID = ''S1'', Time_to_Close_Days = Some 30,
     Customer_Satisfaction_Score = Some 4, Engagement_Score = None\<rparr>"

definition deal_b :: deal where
  "deal_b = \<lparr>Sales_Quarter = ''Q1'', Region = ''EU'', Deal_Stage = ''Negotiation'',
     Deal_Value_USD = 50, Product_Category = ''Hardware'', Lead_Source = ''Web'',
     Salesperson_ID = ''S2'', Time_to_Close_Days = None,
     Customer_Satisfaction_Score = None, Engagement_Score = None\<rparr>"

definition deal_c :: deal where
  "deal_c = \<lparr>Sales_Quarter = ''Q2'', Region = ''US'', Deal_Stage = ''Closed-Lost'',
     Deal_Value_USD = 30, Product_Category = ''Kubernetes'', Lead_Source = ''Event'',
     Salesperson_ID = ''S1'', Time_to_Close_Days = Some 10,
     Customer_Satisfaction_Score = Some 2, Engagement_Score = None\<rparr>"

definition deal_d :: deal where
  "deal_d = \<lparr>Sales_Quarter = ''Q2'', Region = ''EU'', Deal_Stage = ''Closed-Won'',
     Deal_Value_USD = 100, Product_Category = ''Hardware'', Lead_Source = ''Event'',
     Salesperson_ID = ''S2'', Time_to_Close_Days = Some 5,
     Customer_Satisfaction_Score = None, Engagement_Score = Some 7\<rparr>"

definition example_view :: frame where
  "example_view = [deal_a, deal_b, deal_c]"

definition tie_view :: frame where
  "tie_view = [deal_a, deal_b, deal_c, deal_d]"






lemmas example_defs = example_view_def tie_view_def deal_a_def deal_b_def deal_c_def deal_d_def

section \<open>Facts about masks and selection\<close>

lemma select_map: "select df (map P df) = filter P df"
  by (induction df) (simp_all add: select_def)

lemma select_isin: "select df (isin (column c df) vals) = filter (\<lambda>r. c r \<in> set vals) df"
  using select_map [of df "\<lambda>r. c r \<in> set vals"] by (simp add: isin_def column_def comp_def)

lemma select_eq_mask: "select df (eq_mask (column c df) v) = filter (\<lambda>r. c r = v) df"
  using select_map [of df "\<lambda>r. c r = v"] by (simp add: eq_mask_def column_def comp_def)

lemma select_not_isin:
  "select df (not_mask (isin (column c df) vals)) = filter (\<lambda>r. c r \<notin> set vals) df"
  using select_map [of df "\<lambda>r. c r \<notin> set vals"]
  by (simp add: isin_def not_mask_def column_def comp_def)

lemma and_mask_map: "and_mask (map P df) (map Q df) = map (\<lambda>r. P r \<and> Q r) df"
  by (induction df) (simp_all add: and_mask_def)

lemma data_filtered_filter:
  "data_filtered data qs rs =
     filter (\<lambda>r. Sales_Quarter r \<in> set qs \<and> Region r \<in> set rs) data"
proof -
  have "and_mask (isin (column Sales_Quarter data) qs) (isin (column Region data) rs)
        = map (\<lambda>r. Sales_Quarter r \<in> set qs \<and> Region r \<in> set rs) data"
    using and_mask_map [of "\<lambda>r. Sales_Quarter r \<in> set qs" data "\<lambda>r. Region r \<in> set rs"]
    by (simp add: isin_def column_def comp_def)
  then show ?thesis
    by (simp add: data_filtered_def select_map)
qed

lemma region_filtered_data_filter:
  "region_filtered_data df ss = filter (\<lambda>r. Deal_Stage r \<in> set ss) df"
  by (simp add: region_filtered_data_def select_isin)

section \<open>Facts about sums and means\<close>

lemma dropna_present:
  "dropna (map c v) = map (\<lambda>r. the (c r)) (filter (\<lambda>r. c r \<noteq> None) v)"
proof (induction v)
  case Nil
  show ?case by simp
next
  case (Cons r v)
  then show ?case by (cases "c r") simp_all
qed

lemma series_mean_present:
  "metric_value (series_mean (column c v)) = mean_over_present c v"
  by (simp add: series_mean_def column_def dropna_present mean_over_present_def
      metric_value_def Let_def)

lemma sum_list_filter_split:
  fixes f :: "'r \<Rightarrow> real"
  shows "(\<Sum>r\<leftarrow>filter P xs. f r) + (\<Sum>r\<leftarrow>filter (\<lambda>r. \<not> P r) xs. f r) = (\<Sum>r\<leftarrow>xs. f r)"
  by (induction xs) simp_all

lemma total_pipeline_value_filter:
  "total_pipeline_value v
     = (\<Sum>r\<leftarrow>filter (\<lambda>r. Deal_Stage r \<notin> set [''Closed-Won'', ''Closed-Lost'']) v.
          Deal_Value_USD r)"
  unfolding total_pipeline_value_def select_not_isin series_sum_def
  by (simp add: column_def)

lemma total_closed_filter:
  "total_closed_won v = (\<Sum>r\<leftarrow>won_rows v. Deal_Value_USD r)"
  "total_closed_lost v = (\<Sum>r\<leftarrow>filter (\<lambda>r. Deal_Stage r = ''Closed-Lost'') v. Deal_Value_USD r)"
  unfolding total_closed_won_def total_closed_lost_def select_eq_mask series_sum_def
  by (simp_all add: column_def)

text \<open>
  For exact values the three bucket totals add up to the sum over the whole view, the
  pipeline bucket being the complement of the other two. The sums of the script are
  sums of binary floating-point numbers, where a sum taken in another order can differ
  in the last digits; this equation and the one for grouped sums below are facts about
  exact values only.
\<close>

lemma exact_bucket_totals:
  "total_pipeline_value v + total_closed_won v + total_closed_lost v
     = series_sum (column Deal_Value_USD v)"
proof -
  let ?won = "\<lambda>r. Deal_Stage r = ''Closed-Won''"
  let ?lost = "\<lambda>r. Deal_Stage r = ''Closed-Lost''"
  let ?closed = "filter (\<lambda>r. \<not> (Deal_Stage r \<notin> set [''Closed-Won'', ''Closed-Lost''])) v"
  have won: "filter ?won ?closed = filter ?won v"
    by (simp add: conj_commute cong: conj_cong)
  have lost: "filter (\<lambda>r. \<not> ?won r) ?closed = filter ?lost v"
    by (auto intro!: filter_cong)
  have closed: "(\<Sum>r\<leftarrow>?closed. Deal_Value_USD r)
      = (\<Sum>r\<leftarrow>filter ?won v. Deal_Value_USD r) + (\<Sum>r\<leftarrow>filter ?lost v. Deal_Value_USD r)"
    using sum_list_filter_split [of Deal_Value_USD ?won ?closed]
    by (simp only: won lost)
  show ?thesis
    unfolding total_pipeline_value_filter total_closed_filter series_sum_def column_def
    using sum_list_filter_split
      [of Deal_Value_USD "\<lambda>r. Deal_Stage r \<notin> set [''Closed-Won'', ''Closed-Lost'']" v] closed
    by linarith
qed

section \<open>Facts about grouping\<close>

lemma sum_list_delta:
  fixes a :: real
  shows "distinct ks \<Longrightarrow> x \<in> set ks \<Longrightarrow> (\<Sum>k\<leftarrow>ks. if x = k then a else 0) = a"
proof (induction ks)
  case Nil
  then show ?case by simp
next
  case (Cons k ks)
  show ?case
  proof (cases "x = k")
    case True
    then have "x \<notin> set ks" using Cons.prems by simp
    then have "(\<Sum>k\<leftarrow>ks. if x = k then a else 0) = 0"
      by (induction ks) auto
    then show ?thesis using True by simp
  next
    case False
    then show ?thesis using Cons by simp
  qed
qed

lemma group_total:
  fixes c :: "'r \<Rightarrow> real"
  assumes "distinct ks" "key ` set df \<subseteq> set ks"
  shows "(\<Sum>k\<leftarrow>ks. \<Sum>r\<leftarrow>filter (\<lambda>r. key r = k) df. c r) = (\<Sum>r\<leftarrow>df. c r)"
  using assms(2)
proof (induction df)
  case Nil
  show ?case by simp
next
  case (Cons r df)
  have split: "(\<Sum>r'\<leftarrow>filter (\<lambda>r'. key r' = k) (r # df). c r')
      = (if key r = k then c r else 0) + (\<Sum>r'\<leftarrow>filter (\<lambda>r'. key r' = k) df. c r')" for k
    by simp
  have "(\<Sum>k\<leftarrow>ks. \<Sum>r'\<leftarrow>filter (\<lambda>r'. key r' = k) (r # df). c r')
      = (\<Sum>k\<leftarrow>ks. if key r = k then c r else 0)
        + (\<Sum>k\<leftarrow>ks. \<Sum>r'\<leftarrow>filter (\<lambda>r'. key r' = k) df. c r')"
    unfolding split by (simp add: sum_list_addf)
  also have "(\<Sum>k\<leftarrow>ks. if key r = k then c r else 0) = c r"
    using Cons.prems assms(1) by (intro sum_list_delta) auto
  also have "(\<Sum>k\<leftarrow>ks. \<Sum>r'\<leftarrow>filter (\<lambda>r'. key r' = k) df. c r') = (\<Sum>r\<leftarrow>df. c r)"
    using Cons by simp
  finally show ?case by simp
qed

lemma group_keys_props:
  "distinct (group_keys key df)" "set (group_keys key df) = key ` set df"
  by (simp_all add: group_keys_def)

lemma group_rows_filter: "group_rows key df k = filter (\<lambda>r. key r = k) df"
  by (simp add: group_rows_def select_eq_mask)

lemma groupby_sum_total:
  "(\<Sum>g\<leftarrow>groupby_sum key c df. snd g) = series_sum (column c df)"
  using group_total [of "group_keys key df" key df c]
  by (simp add: groupby_sum_def group_rows_filter series_sum_def column_def comp_def
      group_keys_props)

lemma category_revenue_closed_won_filter: "category_revenue_closed_won v = won_rows v"
  by (simp add: category_revenue_closed_won_def select_eq_mask)

section \<open>Facts about the leaderboard\<close>

lemma leaderboard_groups_filter:
  "leaderboard_groups v =
     map (\<lambda>k. \<lparr>lb_Salesperson_ID = fst k, lb_Region = snd k,
               Total_Closed_Won =
                 (\<Sum>r\<leftarrow>filter (\<lambda>r. (Salesperson_ID r, Region r) = k) (won_rows v). Deal_Value_USD r),
               Average_Deal_Value =
                 (\<Sum>r\<leftarrow>filter (\<lambda>r. (Salesperson_ID r, Region r) = k) (won_rows v). Deal_Value_USD r)
                 / real (length (filter (\<lambda>r. (Salesperson_ID r, Region r) = k) (won_rows v)))\<rparr>)
         (group_keys (\<lambda>r. (Salesperson_ID r, Region r)) (won_rows v))"
  unfolding leaderboard_groups_def select_eq_mask group_rows_filter series_sum_def shape0_def Let_def
  by (simp add: column_def)

lemma leaderboard_groups_keys:
  "map leader_key (leaderboard_groups v)
     = group_keys (\<lambda>r. (Salesperson_ID r, Region r)) (won_rows v)"
  unfolding leaderboard_groups_filter by (simp add: comp_def leader_key_def)

lemma leaderboard_groups_total:
  "(\<Sum>g\<leftarrow>leaderboard_groups v. Total_Closed_Won g) = (\<Sum>r\<leftarrow>won_rows v. Deal_Value_USD r)"
  unfolding leaderboard_groups_filter
  using group_total [of "group_keys (\<lambda>r. (Salesperson_ID r, Region r)) (won_rows v)"
      "\<lambda>r. (Salesperson_ID r, Region r)" "won_rows v" Deal_Value_USD]
  by (simp add: comp_def group_keys_props)





text \<open>
  With a sorting routine that keeps equal values in their order, groups with equal sums
  do come out in the order in which the grouping produced them.
\<close>

lemma sorted_wrt_filter_imp:
  "sorted_wrt R (filter P xs) \<Longrightarrow> sorted_wrt (\<lambda>a b. P a \<and> P b \<longrightarrow> R a b) xs"
  by (induction xs) (auto split: if_splits)

lemma leaderboard_groups_key_order:
  "sorted_wrt (\<lambda>a b. leader_key a < leader_key b) (leaderboard_groups v)"
proof -
  have "sorted_wrt (<) (map leader_key (leaderboard_groups v))"
    unfolding leaderboard_groups_keys group_keys_def
    by (simp add: strict_sorted_iff)
  then show ?thesis by (simp add: sorted_wrt_map)
qed

lemma stable_sort_ties_in_group_order:
  "ties_in_group_order (leaderboard stable_sort_values v)"
proof -
  let ?G = "leaderboard_groups v"
  let ?f = "\<lambda>g. - Total_Closed_Won g"
  let ?S = "sort_key ?f ?G"
  have each: "sorted_wrt (\<lambda>a b. ?f a = t \<and> ?f b = t \<longrightarrow> leader_key a < leader_key b) ?S" for t
  proof -
    have "filter (\<lambda>g. ?f g = t) ?S = filter (\<lambda>g. ?f g = t) ?G"
      by (rule sort_key_stable)
    then have "sorted_wrt (\<lambda>a b. leader_key a < leader_key b) (filter (\<lambda>g. ?f g = t) ?S)"
      using sorted_wrt_filter [OF leaderboard_groups_key_order, of "\<lambda>g. ?f g = t" v] by simp
    then show ?thesis by (rule sorted_wrt_filter_imp)
  qed
  have "sorted_wrt (\<lambda>a b. Total_Closed_Won a = Total_Closed_Won b \<longrightarrow> leader_key a < leader_key b) ?S"
    unfolding sorted_wrt_iff_nth_less
  proof (intro allI impI)
    fix i j
    assume ij: "i < j" "j < length ?S"
      and eq: "Total_Closed_Won (?S ! i) = Total_Closed_Won (?S ! j)"
    show "leader_key (?S ! i) < leader_key (?S ! j)"
      using each [of "?f (?S ! i)"] ij eq unfolding sorted_wrt_iff_nth_less by simp
  qed
  then show ?thesis
    unfolding ties_in_group_order_def leaderboard_def head_def stable_sort_values_def
    by (rule sorted_wrt_take)
qed


text \<open>
  For exact values the group totals of each roll-up add up to the sum over the rows that
  were grouped; for the leaderboard these are the groups before the cut to ten rows.
\<close>

lemma exact_grouped_sums:
  "(\<Sum>g\<leftarrow>region_category_revenue rfd. snd g) = series_sum (column Deal_Value_USD rfd)
   \<and> (\<Sum>g\<leftarrow>leaderboard_groups v. Total_Closed_Won g)
       = series_sum (column Deal_Value_USD (won_rows v))
   \<and> (\<Sum>g\<leftarrow>lead_source_data v. snd g) = series_sum (column Deal_Value_USD v)
   \<and> (\<Sum>g\<leftarrow>category_revenue v. snd g) = series_sum (column Deal_Value_USD (won_rows v))"
  by (simp add: region_category_revenue_def lead_source_data_def category_revenue_def
      groupby_sum_total leaderboard_groups_total category_revenue_closed_won_filter
      series_sum_def column_def)

section \<open>Facts about the default sort\<close>

lemma list_update_numeral:
  "(x # xs)[numeral k := y] = x # xs[pred_numeral k := y]"
  by (simp add: numeral_eq_Suc)

lemmas npy_simps = swap_def cswap_def median3_def scan_up.simps scan_down.simps
  partition_loop.simps partition_around_def partition_def insert_at.simps insertion_sort.simps
  larger_child_def sift.simps heapify.simps pop_max.simps
  aheapsort_def aquicksort.simps npy_get_msb.simps argsort_def nargsort_def list_update_numeral


lemma argsort_of_two_ties: "argsort [100, 100] = Some [0, 1]"
  by (simp add: npy_simps upt_rec)




section \<open>Facts about the store\<close>

lemma exec_keeps:
  assumes "wf_world w" "keeps_data s" "exec csv s w = Some w'"
  shows "wf_world w'" and "object_of w' ''data'' = object_of w ''data''"
    and "\<forall>a<fresh w. heap w' a = heap w a"
proof -
  show "wf_world w'"
    using assms
    by (cases s) (auto simp: wf_world_def new_object_def load_data_def less_Suc_eq
        split: option.splits prod.splits if_splits)
  have nd: "vars w ''data'' \<noteq> Some (fresh w)"
    using assms(1) by (auto simp: wf_world_def)
  show "object_of w' ''data'' = object_of w ''data''"
    using assms(2,3) nd
    by (cases s) (auto simp: new_object_def object_of_def load_data_def
        split: option.splits prod.splits if_splits)
  show "\<forall>a<fresh w. heap w' a = heap w a"
    using assms
    by (cases s) (auto simp: wf_world_def new_object_def object_of_def load_data_def
        split: option.splits prod.splits if_splits)
qed

lemma exec_cached:
  assumes "cached w = Some csv" "exec csv s w = Some w'"
  shows "cached w' = Some csv"
  using assms
  by (cases s) (auto simp: new_object_def load_data_def split: option.splits prod.splits)

lemma trace_keeps:
  assumes "wf_world w" "\<forall>s\<in>set ss. keeps_data s" "cached w = Some csv"
    and "Some w' \<in> set (trace csv ss w)"
  shows "object_of w' ''data'' = object_of w ''data'' \<and> cached w' = Some csv"
  using assms
proof (induction ss arbitrary: w)
  case Nil
  then show ?case by simp
next
  case (Cons s ss)
  show ?case
  proof (cases "exec csv s w")
    case None
    then show ?thesis using Cons.prems by simp
  next
    case (Some w1)
    have k: "keeps_data s" using Cons.prems by simp
    note e = exec_keeps [OF Cons.prems(1) k Some] exec_cached [OF Cons.prems(3) Some]
    from Cons.prems(4) Some have "w' = w1 \<or> Some w' \<in> set (trace csv ss w1)"
      by auto
    then show ?thesis
    proof
      assume "w' = w1"
      then show ?thesis using e by simp
    next
      assume "Some w' \<in> set (trace csv ss w1)"
      then have "object_of w' ''data'' = object_of w1 ''data'' \<and> cached w' = Some csv"
        using Cons.IH [of w1] e Cons.prems(2) by simp
      then show ?thesis using e by simp
    qed
  qed
qed

lemma run_trace_defined:
  "run csv ss w = Some w' \<Longrightarrow> None \<notin> set (trace csv ss w)"
  by (induction ss arbitrary: w) (auto split: option.splits)

lemma length_trace: "None \<notin> set (trace csv ss w) \<Longrightarrow> length (trace csv ss w) = length ss"
  by (induction ss arbitrary: w) (auto split: option.splits)

lemma run_script:
  assumes "c = None \<or> c = Some csv"
  shows "\<exists>w. run csv (script sv sel) (start c) = Some w
    \<and> shown_page w = dashboard sv csv (sel_quarters sel) (sel_regions sel) (sel_deal_stages sel)
    \<and> cached w = Some csv"
  using assms
  by (auto simp: script_def start_def new_object_def object_of_def load_data_def
      dashboard_def Let_def blank_page_def data_filtered_def region_filtered_data_def
      category_revenue_def category_revenue_closed_won_def)

lemma run_views:
  assumes "c = None \<or> c = Some csv"
  shows "\<exists>w a b r k. run csv (script sv sel) (start c) = Some w
    \<and> vars w ''data'' = Some a \<and> heap w a = Some csv
    \<and> vars w ''data_filtered'' = Some b \<and> a \<noteq> b
    \<and> heap w b = Some (data_filtered csv (sel_quarters sel) (sel_regions sel))
    \<and> vars w ''region_filtered_data'' = Some r \<and> a \<noteq> r
    \<and> vars w ''category_revenue_closed_won'' = Some k \<and> a \<noteq> k"
  using assms
  by (auto simp: script_def start_def new_object_def object_of_def load_data_def
      data_filtered_def)

lemma script_rest_keeps: "\<forall>s\<in>set (tl (script sv sel)). keeps_data s"
  by (simp add: script_def)

lemma length_script: "length (script sv sel) = 17"
  by (simp add: script_def)

lemma run_trace_data:
  assumes "c = None \<or> c = Some csv"
    and "s \<in> set (trace csv (script sv sel) (start c))"
  shows "\<exists>w. s = Some w \<and> object_of w ''data'' = Some csv \<and> cached w = Some csv"
proof -
  let ?w1 = "new_object ''data'' csv ((start c)\<lparr>cached := Some csv\<rparr>)"
  have e1: "exec csv (Load ''data'') (start c) = Some ?w1"
    using assms(1) by (auto simp: load_data_def start_def)
  have w1: "wf_world ?w1" "object_of ?w1 ''data'' = Some csv" "cached ?w1 = Some csv"
    by (simp_all add: wf_world_def new_object_def object_of_def start_def)
  have sc: "script sv sel = Load ''data'' # tl (script sv sel)"
    by (simp add: script_def)
  have tr: "trace csv (script sv sel) (start c) = Some ?w1 # trace csv (tl (script sv sel)) ?w1"
    by (subst sc) (simp only: trace.simps e1 option.case)
  obtain wl where "run csv (script sv sel) (start c) = Some wl"
    using run_script [OF assms(1)] by blast
  then have "None \<notin> set (trace csv (script sv sel) (start c))"
    by (rule run_trace_defined)
  then obtain w where s: "s = Some w"
    using assms(2) by (cases s) auto
  have "w = ?w1 \<or> Some w \<in> set (trace csv (tl (script sv sel)) ?w1)"
    using assms(2) unfolding s tr by simp
  then have "object_of w ''data'' = Some csv \<and> cached w = Some csv"
  proof
    assume "w = ?w1"
    then show ?thesis using w1 by simp
  next
    assume "Some w \<in> set (trace csv (tl (script sv sel)) ?w1)"
    then show ?thesis
      using trace_keeps [OF w1(1) script_rest_keeps w1(3)] w1(2) by simp
  qed
  then show ?thesis using s by simp
qed

text \<open>
  A statement that changes a frame in place does change the object bound to
  \<^verbatim>\<open>data\<close>: the store can tell such a script from the one above.
\<close>

lemma inplace_changes_data:
  "\<exists>w. run csv [Load ''data'', Inplace ''data'' g] (start None) = Some w
     \<and> object_of w ''data'' = Some (g csv)"
  by (simp add: start_def new_object_def object_of_def load_data_def)

section \<open>The filter\<close>

text \<open>
  Claim C1. The quarter and region filter returns exactly the rows of the table whose
  quarter is among the selected quarters and whose region is among the selected regions,
  and the stage filter applied on top of it keeps exactly those whose stage is among the
  selected stages as well; the rows come out in table order. An empty selection gives the
  empty view, and a selected value that no row carries changes nothing. The functions are
  total: there is no error result.
\<close>

theorem filter_exact_rows:
  "data_filtered data qs rs
     = filter (\<lambda>r. Sales_Quarter r \<in> set qs \<and> Region r \<in> set rs) data
   \<and> region_filtered_data (data_filtered data qs rs) ss
     = filter (\<lambda>r. Sales_Quarter r \<in> set qs \<and> Region r \<in> set rs \<and> Deal_Stage r \<in> set ss) data
   \<and> subseq (data_filtered data qs rs) data
   \<and> subseq (region_filtered_data (data_filtered data qs rs) ss) (data_filtered data qs rs)
   \<and> data_filtered data [] rs = []
   \<and> data_filtered data qs [] = []
   \<and> region_filtered_data df [] = []
   \<and> (q \<notin> Sales_Quarter ` set data \<longrightarrow>
        data_filtered data (q # qs) rs = data_filtered data qs rs)
   \<and> (g \<notin> Region ` set data \<longrightarrow>
        data_filtered data qs (g # rs) = data_filtered data qs rs)
   \<and> (s \<notin> Deal_Stage ` set df \<longrightarrow>
        region_filtered_data df (s # ss) = region_filtered_data df ss)"
proof -
  have unknown: "filter (\<lambda>r. c r \<in> set (x # xs) \<and> P r) rows = filter (\<lambda>r. c r \<in> set xs \<and> P r) rows"
    if "x \<notin> c ` set rows" for c :: "deal \<Rightarrow> string" and x xs P rows
    using that by (intro filter_cong) auto
  have q: "q \<notin> Sales_Quarter ` set data \<longrightarrow>
        data_filtered data (q # qs) rs = data_filtered data qs rs"
    using unknown [of q Sales_Quarter data qs "\<lambda>r. Region r \<in> set rs"]
    by (simp only: data_filtered_filter) blast
  have g: "g \<notin> Region ` set data \<longrightarrow>
        data_filtered data qs (g # rs) = data_filtered data qs rs"
    using unknown [of g Region data rs "\<lambda>r. Sales_Quarter r \<in> set qs"]
    by (simp only: data_filtered_filter conj_commute) blast
  have s: "s \<notin> Deal_Stage ` set df \<longrightarrow>
        region_filtered_data df (s # ss) = region_filtered_data df ss"
    using unknown [of s Deal_Stage df ss "\<lambda>r. True"]
    by (simp only: region_filtered_data_filter) simp
  have stage: "region_filtered_data (data_filtered data qs rs) ss
     = filter (\<lambda>r. Sales_Quarter r \<in> set qs \<and> Region r \<in> set rs \<and> Deal_Stage r \<in> set ss) data"
    by (simp add: region_filtered_data_filter data_filtered_filter conj_commute conj_left_commute)
  have order: "subseq (data_filtered data qs rs) data"
    by (simp add: data_filtered_filter)
  have order': "subseq (region_filtered_data (data_filtered data qs rs) ss) (data_filtered data qs rs)"
    by (simp add: region_filtered_data_filter)
  have empty: "data_filtered data [] rs = []" "data_filtered data qs [] = []"
    "region_filtered_data df [] = []"
    by (simp_all add: data_filtered_filter region_filtered_data_filter)
  show ?thesis
    using q g s stage order order' empty data_filtered_filter [of data qs rs]
    by blast
qed

theorem filter_exact_rows_witness:
  "''Q3'' \<notin> Sales_Quarter ` set example_view
   \<and> ''MARS'' \<notin> Region ` set example_view
   \<and> ''Won'' \<notin> Deal_Stage ` set example_view
   \<and> data_filtered example_view [''Q3'', ''Q1''] [''MARS'', ''EU''] = [deal_a, deal_b]
   \<and> data_filtered example_view [''Q1''] [''EU''] = [deal_a, deal_b]
   \<and> region_filtered_data (data_filtered example_view [''Q1''] [''EU'']) [''Closed-Won'']
       = [deal_a]
   \<and> region_filtered_data example_view [''Won'', ''Closed-Lost''] = [deal_c]
   \<and> data_filtered example_view [] [''EU''] = []"
  using filter_exact_rows [where data = example_view and qs = "[''Q1'']" and rs = "[''EU'']"
      and ss = "[''Closed-Won'']" and df = example_view and q = "''Q3''" and g = "''MARS''"
      and s = "''Won''"]
  by (simp add: example_defs data_filtered_filter region_filtered_data_filter)

section \<open>Key metrics\<close>

text \<open>
  Claim C2. On every view, the pipeline total is the sum of the deal values of the rows
  whose stage is neither Closed-Won nor Closed-Lost, the won total is the sum over the
  Closed-Won rows and the lost total is the sum over the Closed-Lost rows.
\<close>

theorem metric_sums:
  "total_pipeline_value v
     = (\<Sum>r\<leftarrow>filter (\<lambda>r. Deal_Stage r \<noteq> ''Closed-Won'' \<and> Deal_Stage r \<noteq> ''Closed-Lost'') v.
          Deal_Value_USD r)
   \<and> total_closed_won v
     = (\<Sum>r\<leftarrow>filter (\<lambda>r. Deal_Stage r = ''Closed-Won'') v. Deal_Value_USD r)
   \<and> total_closed_lost v
     = (\<Sum>r\<leftarrow>filter (\<lambda>r. Deal_Stage r = ''Closed-Lost'') v. Deal_Value_USD r)"
  by (simp add: total_pipeline_value_filter total_closed_filter)

theorem metric_sums_witness:
  "total_pipeline_value example_view = 50
   \<and> total_closed_won example_view = 100
   \<and> total_closed_lost example_view = 30"
  using metric_sums [of example_view]
  by (simp add: example_defs)

text \<open>
  Claim C3. On a non-empty view the win rate is the number of Closed-Won rows divided by
  the number of all rows of the view, times 100; on the empty view it is 0; it always lies
  between 0 and 100.
\<close>

theorem win_rate_formula:
  "(v \<noteq> [] \<longrightarrow>
      win_rate v
        = real (length (filter (\<lambda>r. Deal_Stage r = ''Closed-Won'') v)) / real (length v) * 100)
   \<and> win_rate [] = 0
   \<and> 0 \<le> win_rate v \<and> win_rate v \<le> 100"
proof -
  have won: "closed_won v = length (filter (\<lambda>r. Deal_Stage r = ''Closed-Won'') v)"
    by (simp add: closed_won_def shape0_def select_eq_mask)
  have le: "closed_won v \<le> length v"
    by (simp add: won)
  have upper: "win_rate v \<le> 100"
  proof (cases "v = []")
    case True
    then show ?thesis by (simp add: win_rate_def total_deals_def shape0_def)
  next
    case False
    then have pos: "0 < real (length v)" by simp
    have frac: "real (closed_won v) / real (length v) \<le> 1"
      using le pos by (simp add: divide_le_eq_1)
    have "win_rate v = real (closed_won v) / real (length v) * 100"
      using False by (simp add: win_rate_def total_deals_def shape0_def)
    also have "\<dots> \<le> 1 * 100"
      using frac by (intro mult_right_mono) simp_all
    finally show ?thesis by simp
  qed
  have lower: "0 \<le> win_rate v"
    by (simp add: win_rate_def)
  have empty: "win_rate [] = 0"
    by (simp add: win_rate_def total_deals_def shape0_def)
  have formula: "v \<noteq> [] \<longrightarrow>
      win_rate v
        = real (length (filter (\<lambda>r. Deal_Stage r = ''Closed-Won'') v)) / real (length v) * 100"
    by (simp add: win_rate_def total_deals_def shape0_def won)
  show ?thesis
    using formula empty lower upper by blast
qed

theorem win_rate_formula_witness:
  "example_view \<noteq> [] \<and> win_rate example_view = 100 / 3
   \<and> 0 \<le> win_rate example_view \<and> win_rate example_view \<le> 100"
  using win_rate_formula [of example_view]
  by (simp add: example_defs)

text \<open>
  Claim C4. The three sums are 0 on the empty view. Each of the three means is the mean
  of its column over the rows where the value is present, rows with a missing value being
  left out of both the sum and the count, and it is the marker N/A exactly when no row of
  the view has the value.
\<close>

theorem empty_and_missing_policy:
  "total_pipeline_value [] = 0 \<and> total_closed_won [] = 0 \<and> total_closed_lost [] = 0
   \<and> metric_value (avg_time_to_close v) = mean_over_present Time_to_Close_Days v
   \<and> metric_value (avg_csat v) = mean_over_present Customer_Satisfaction_Score v
   \<and> metric_value (avg_engagement v) = mean_over_present Engagement_Score v
   \<and> (metric_value (avg_time_to_close v) = NA \<longleftrightarrow> (\<forall>r\<in>set v. Time_to_Close_Days r = None))
   \<and> (metric_value (avg_csat v) = NA \<longleftrightarrow> (\<forall>r\<in>set v. Customer_Satisfaction_Score r = None))
   \<and> (metric_value (avg_engagement v) = NA \<longleftrightarrow> (\<forall>r\<in>set v. Engagement_Score r = None))"
proof -
  have sums: "total_pipeline_value [] = 0" "total_closed_won [] = 0" "total_closed_lost [] = 0"
    by (simp_all add: total_pipeline_value_filter total_closed_filter)
  have marker: "mean_over_present c v = NA \<longleftrightarrow> (\<forall>r\<in>set v. c r = None)" for c
    by (simp add: mean_over_present_def Let_def filter_empty_conv)
  show ?thesis
    unfolding avg_time_to_close_def avg_csat_def avg_engagement_def series_mean_present
    using sums marker by blast
qed

theorem empty_and_missing_policy_witness:
  "metric_value (avg_time_to_close example_view) = Number 20
   \<and> metric_value (avg_csat example_view) = Number 3
   \<and> metric_value (avg_engagement example_view) = NA
   \<and> map Engagement_Score example_view = [None, None, None]
   \<and> metric_value (avg_time_to_close []) = NA"
  using empty_and_missing_policy [of example_view] empty_and_missing_policy [of "[]"]
  by (simp add: example_defs mean_over_present_def)

section \<open>The leaderboard\<close>




section \<open>Filtering again\<close>

text \<open>
  Claim C7. Filtering a view that was produced with selections S again with selections T
  that contain S gives the same view back. This holds for the quarter and region filter,
  for the stage filter, and for the two in sequence.
\<close>

theorem refilter_superset:
  "(set qs \<subseteq> set qs' \<and> set rs \<subseteq> set rs' \<longrightarrow>
      data_filtered (data_filtered data qs rs) qs' rs' = data_filtered data qs rs)
   \<and> (set ss \<subseteq> set ss' \<longrightarrow>
      region_filtered_data (region_filtered_data df ss) ss' = region_filtered_data df ss)
   \<and> (set qs \<subseteq> set qs' \<and> set rs \<subseteq> set rs' \<and> set ss \<subseteq> set ss' \<longrightarrow>
      region_filtered_data
        (data_filtered (region_filtered_data (data_filtered data qs rs) ss) qs' rs') ss'
      = region_filtered_data (data_filtered data qs rs) ss)"
  unfolding data_filtered_filter region_filtered_data_filter filter_filter
  by (auto intro!: filter_cong)

theorem refilter_superset_witness:
  "set [''Q1''] \<subseteq> set [''Q2'', ''Q1''] \<and> set [''EU''] \<subseteq> set [''EU'', ''US'']
   \<and> set [''Closed-Won''] \<subseteq> set [''Closed-Won'', ''Closed-Lost'']
   \<and> data_filtered example_view [''Q1''] [''EU''] = [deal_a, deal_b]
   \<and> data_filtered [deal_a, deal_b] [''Q2'', ''Q1''] [''EU'', ''US''] = [deal_a, deal_b]
   \<and> region_filtered_data (region_filtered_data example_view [''Closed-Won''])
        [''Closed-Won'', ''Closed-Lost''] = [deal_a]"
  using refilter_superset [where data = example_view and qs = "[''Q1'']"
      and qs' = "[''Q2'', ''Q1'']" and rs = "[''EU'']" and rs' = "[''EU'', ''US'']"
      and ss = "[''Closed-Won'']" and ss' = "[''Closed-Won'', ''Closed-Lost'']"
      and df = example_view]
  by (simp add: example_defs data_filtered_filter region_filtered_data_filter)

section \<open>The dataset and the selections\<close>

text \<open>
  Claim C9. Over a session of any number of runs, with any selections, every statement
  of every run executes, and after each of them the object bound to \<^verbatim>\<open>data\<close> holds
  exactly the table that the load step read, as does the cache. A run ends with the page
  computed from that table, and the three filtered views are objects of their own, at
  other addresses than the dataset.
\<close>

theorem dataset_never_mutated:
  assumes "c = None \<or> c = Some csv"
  shows "(\<forall>s\<in>set (session_trace csv sort_values c sels).
            \<exists>w. s = Some w \<and> object_of w ''data'' = Some csv \<and> cached w = Some csv)
    \<and> length (session_trace csv sort_values c sels) = 17 * length sels
    \<and> (\<exists>w a b r k. run csv (script sort_values sel) (start c) = Some w
          \<and> shown_page w
              = dashboard sort_values csv (sel_quarters sel) (sel_regions sel) (sel_deal_stages sel)
          \<and> vars w ''data'' = Some a \<and> heap w a = Some csv
          \<and> vars w ''data_filtered'' = Some b \<and> a \<noteq> b
          \<and> heap w b = Some (data_filtered csv (sel_quarters sel) (sel_regions sel))
          \<and> vars w ''region_filtered_data'' = Some r \<and> a \<noteq> r
          \<and> vars w ''category_revenue_closed_won'' = Some k \<and> a \<noteq> k)"
proof -
  have all: "(\<forall>s\<in>set (session_trace csv sort_values c sels).
            \<exists>w. s = Some w \<and> object_of w ''data'' = Some csv \<and> cached w = Some csv)
    \<and> length (session_trace csv sort_values c sels) = 17 * length sels"
    using assms
  proof (induction sels arbitrary: c)
    case Nil
    show ?case by simp
  next
    case (Cons sel sels)
    obtain w where w: "run csv (script sort_values sel) (start c) = Some w" "cached w = Some csv"
      using run_script [OF Cons.prems] by blast
    have defined: "None \<notin> set (trace csv (script sort_values sel) (start c))"
      using w(1) by (rule run_trace_defined)
    have len: "length (trace csv (script sort_values sel) (start c)) = 17"
      using length_trace [OF defined] by (simp add: length_script)
    have rest: "(\<forall>s\<in>set (session_trace csv sort_values (Some csv) sels).
            \<exists>w. s = Some w \<and> object_of w ''data'' = Some csv \<and> cached w = Some csv)
      \<and> length (session_trace csv sort_values (Some csv) sels) = 17 * length sels"
      using Cons.IH [of "Some csv"] by simp
    show ?case
      using rest run_trace_data [OF Cons.prems] len by (auto simp: w)
  qed
  obtain w a b r k where "run csv (script sort_values sel) (start c) = Some w"
    "vars w ''data'' = Some a" "heap w a = Some csv"
    "vars w ''data_filtered'' = Some b" "a \<noteq> b"
    "heap w b = Some (data_filtered csv (sel_quarters sel) (sel_regions sel))"
    "vars w ''region_filtered_data'' = Some r" "a \<noteq> r"
    "vars w ''category_revenue_closed_won'' = Some k" "a \<noteq> k"
    using run_views [OF assms] by blast
  moreover have "shown_page w
      = dashboard sort_values csv (sel_quarters sel) (sel_regions sel) (sel_deal_stages sel)"
    using run_script [OF assms, where sv = sort_values and sel = sel] calculation(1) by auto
  ultimately show ?thesis
    using all by blast
qed

theorem dataset_never_mutated_witness:
  "set (map (map_option (\<lambda>w. (object_of w ''data'', cached w)))
       (session_trace example_view stable_sort_values None
          [\<lparr>sel_quarters = [''Q1''], sel_regions = [''EU''], sel_deal_stages = []\<rparr>,
           \<lparr>sel_quarters = [], sel_regions = [''US''], sel_deal_stages = [''Closed-Won'']\<rparr>]))
     = {Some (Some example_view, Some example_view)}
   \<and> length (session_trace example_view stable_sort_values None
          [\<lparr>sel_quarters = [''Q1''], sel_regions = [''EU''], sel_deal_stages = []\<rparr>,
           \<lparr>sel_quarters = [], sel_regions = [''US''], sel_deal_stages = [''Closed-Won'']\<rparr>]) = 34"
proof -
  have start: "(None :: frame option) = None \<or> None = Some example_view"
    by simp
  show ?thesis
    using dataset_never_mutated [OF start, where sort_values = stable_sort_values and sels =
      "[\<lparr>sel_quarters = [''Q1''], sel_regions = [''EU''], sel_deal_stages = []\<rparr>,
        \<lparr>sel_quarters = [], sel_regions = [''US''], sel_deal_stages = [''Closed-Won'']\<rparr>]"]
    by (simp add: script_def start_def new_object_def object_of_def load_data_def)
qed

text \<open>
  Claim C10. Two runs on the same table with the same quarter and region selections and
  different stage selections give the same page except for the region and category
  revenue: the filtered table, the key metrics, the leaderboard, both category roll-ups and
  the lead source and stage roll-up are identical. The region and category revenue does
  depend on the stage selection, as the example table shows.
\<close>

theorem stage_selection_independence:
  "(dashboard sv data qs rs ss1)\<lparr>page_region_category_revenue := x\<rparr>
     = (dashboard sv data qs rs ss2)\<lparr>page_region_category_revenue := x\<rparr>
   \<and> page_total_pipeline_value (dashboard sv data qs rs ss1)
       = page_total_pipeline_value (dashboard sv data qs rs ss2)
   \<and> page_total_closed_won (dashboard sv data qs rs ss1)
       = page_total_closed_won (dashboard sv data qs rs ss2)
   \<and> page_total_closed_lost (dashboard sv data qs rs ss1)
       = page_total_closed_lost (dashboard sv data qs rs ss2)
   \<and> page_win_rate (dashboard sv data qs rs ss1) = page_win_rate (dashboard sv data qs rs ss2)
   \<and> page_avg_time_to_close (dashboard sv data qs rs ss1)
       = page_avg_time_to_close (dashboard sv data qs rs ss2)
   \<and> page_avg_csat (dashboard sv data qs rs ss1) = page_avg_csat (dashboard sv data qs rs ss2)
   \<and> page_avg_engagement (dashboard sv data qs rs ss1)
       = page_avg_engagement (dashboard sv data qs rs ss2)
   \<and> page_leaderboard (dashboard sv data qs rs ss1) = page_leaderboard (dashboard sv data qs rs ss2)
   \<and> page_category_revenue (dashboard sv data qs rs ss1)
       = page_category_revenue (dashboard sv data qs rs ss2)
   \<and> page_category_avg_deal (dashboard sv data qs rs ss1)
       = page_category_avg_deal (dashboard sv data qs rs ss2)
   \<and> page_lead_source_data (dashboard sv data qs rs ss1)
       = page_lead_source_data (dashboard sv data qs rs ss2)
   \<and> page_region_category_revenue (dashboard sv example_view [''Q1''] [''EU''] [''Closed-Won''])
       \<noteq> page_region_category_revenue (dashboard sv example_view [''Q1''] [''EU''] [''Negotiation''])"
proof -
  have diff: "page_region_category_revenue (dashboard sv example_view [''Q1''] [''EU''] [''Closed-Won''])
       \<noteq> page_region_category_revenue (dashboard sv example_view [''Q1''] [''EU''] [''Negotiation''])"
    by (simp add: dashboard_def Let_def region_category_revenue_def groupby_sum_def group_keys_def
        group_rows_filter data_filtered_filter region_filtered_data_filter series_sum_def
        column_def example_defs)
  show ?thesis
    using diff by (simp add: dashboard_def Let_def)
qed

theorem stage_selection_independence_witness:
  "page_leaderboard (dashboard stable_sort_values tie_view [''Q1'', ''Q2''] [''EU''] [''Closed-Won''])
     = page_leaderboard (dashboard stable_sort_values tie_view [''Q1'', ''Q2''] [''EU''] [])
   \<and> page_region_category_revenue
       (dashboard stable_sort_values tie_view [''Q1'', ''Q2''] [''EU''] [''Closed-Won''])
     = [((''EU'', ''Hardware''), 100), ((''EU'', ''Kubernetes''), 100)]
   \<and> page_region_category_revenue
       (dashboard stable_sort_values tie_view [''Q1'', ''Q2''] [''EU''] []) = []"
  using stage_selection_independence [where sv = stable_sort_values and data = tie_view
      and qs = "[''Q1'', ''Q2'']" and rs = "[''EU'']" and ?ss1.0 = "[''Closed-Won'']"
      and ?ss2.0 = "[]"]
  by (simp add: dashboard_def Let_def region_category_revenue_def groupby_sum_def group_keys_def
      group_rows_filter data_filtered_filter region_filtered_data_filter series_sum_def
      column_def example_defs)

end
